theory Spec2Isabelle
  imports Complex_Main
begin

section \<open>Matrix storage\<close>

text \<open>
  The kernels of \<^verbatim>\<open>src/runtime/local/kernels\<close> work on the matrix classes of
  \<^verbatim>\<open>runtime/local/datastructures\<close>, whose headers are not among the sources. The
  records below follow the data model of the specification: every matrix has its
  dimensions, a dense matrix owns one contiguous buffer of values, a compressed-row
  matrix refers to three shared buffers (row offsets, column indices, values).
\<close>

type_synonym addr = nat

text \<open>
  Buffers that several owners share live in a heap: an address holds an array of
  \<^verbatim>\<open>size_t\<close> (row offsets, column indices) or an array of values, and every address
  has the reference count of the shared handle that owns it.
\<close>

datatype 'v buffer = SizeArray "nat list" | ValueArray "'v list"

record 'v heap =
  buffers :: "addr \<rightharpoonup> 'v buffer"
  refCounter :: "addr \<Rightarrow> nat"

record Structure =
  numRows :: nat
  numCols :: nat

record CSRMatrix = Structure +
  rowOffsets :: addr
  colIdxs :: addr
  csrValues :: addr

text \<open>
  Modelled from the spec: \<^verbatim>\<open>Structure::getNumRows\<close> (the header is missing), the
  row dimension of a matrix.
\<close>

definition getNumRows :: "'a Structure_scheme \<Rightarrow> nat" where
  "getNumRows m = numRows m"

text \<open>
  Modelled from the spec: \<^verbatim>\<open>CSRMatrix::getRowOffsetsSharedPtr\<close> (the header is
  missing), the shared handle of the row-offset buffer; \<^verbatim>\<open>.get()\<close> on it is the
  address of the buffer, which is never null for a constructed matrix.
\<close>

definition getRowOffsetsSharedPtr :: "CSRMatrix \<Rightarrow> addr" where
  "getRowOffsetsSharedPtr m = rowOffsets m"

definition shared_ptr_get :: "addr \<Rightarrow> addr option" where
  "shared_ptr_get p = Some p"

text \<open>
  Modelled from the spec: \<^verbatim>\<open>increaseRefCounter\<close> (the header is missing). The
  specification says of it: ``increments the backing buffer's shared reference count
  by one, signaling one additional live consumer''. Nothing but the count of the
  row-offset buffer is written.
\<close>

definition increaseRefCounter :: "CSRMatrix \<Rightarrow> 'v heap \<Rightarrow> 'v heap" where
  "increaseRefCounter m h =
     h\<lparr>refCounter := (refCounter h)(rowOffsets m := refCounter h (rowOffsets m) + 1)\<rparr>"

text \<open>
  Modelled from the spec: the matrix's own row-offset accessor
  (\<^verbatim>\<open>CSRMatrix::getRowOffsets\<close>, the header is missing): the array behind the handle.
\<close>

definition getRowOffsets :: "CSRMatrix \<Rightarrow> 'v heap \<Rightarrow> nat list option" where
  "getRowOffsets m h =
     (case buffers h (rowOffsets m) of
        Some (SizeArray offs) \<Rightarrow> Some offs
      | _ \<Rightarrow> None)"

text \<open>
  A fully constructed sparse matrix (the precondition of the row-offset view kernel):
  its row-offset array is populated and has \<open>rows + 1\<close> entries. The array of 8-byte
  entries lies in a 64-bit address space.
\<close>

definition fully_constructed :: "CSRMatrix \<Rightarrow> 'v heap \<Rightarrow> bool" where
  "fully_constructed m h =
     (case getRowOffsets m h of
        Some offs \<Rightarrow> length offs = getNumRows m + 1 \<and> 8 * length offs < 2 ^ 64
      | None \<Rightarrow> False)"

section \<open>The row-offset view kernel\<close>

text \<open>
  \<^verbatim>\<open>StridedMemRefType<size_t, 1>\<close> of MLIR's \<^verbatim>\<open>CRunnerUtils.h\<close>: two pointers, an
  offset and the sizes and strides of the one dimension, all \<^verbatim>\<open>int64_t\<close>. A pointer
  is an address or null (\<open>None\<close>).
\<close>

record StridedMemRefType =
  basePtr :: "addr option"
  data :: "addr option"
  offset :: int
  sizes :: "int list"
  strides :: "int list"

text \<open>The implicit conversion of a \<^verbatim>\<open>size_t\<close> to \<^verbatim>\<open>int64_t\<close> (two's complement).\<close>

definition size_t_to_int64 :: "nat \<Rightarrow> int" where
  "size_t_to_int64 n = (if n mod 2 ^ 64 < 2 ^ 63 then int (n mod 2 ^ 64)
                        else int (n mod 2 ^ 64) - 2 ^ 64)"

text \<open>
  \<^verbatim>\<open>convertCSRMatrixToRowOffsetsMemRef\<close>
  (\<^verbatim>\<open>ConvertCSRMatrixToRowOffsetsMemRef.h\<close>, lines 24 to 36). The descriptor is
  value-initialised, its fields are assigned one by one, then the reference count is
  raised. The context argument is not used. The function returns the descriptor and
  the heap it leaves behind.
\<close>

definition convertCSRMatrixToRowOffsetsMemRef ::
  "CSRMatrix \<Rightarrow> 'v heap \<Rightarrow> StridedMemRefType \<times> 'v heap" where
  "convertCSRMatrixToRowOffsetsMemRef input h =
     (let rowOffsetsMemRef =
            \<lparr>basePtr = None, data = None, offset = 0, sizes = [0], strides = [0]\<rparr>;
          rowOffsetsMemRef =
            rowOffsetsMemRef\<lparr>basePtr := shared_ptr_get (getRowOffsetsSharedPtr input)\<rparr>;
          rowOffsetsMemRef = rowOffsetsMemRef\<lparr>data := basePtr rowOffsetsMemRef\<rparr>;
          rowOffsetsMemRef = rowOffsetsMemRef\<lparr>offset := 0\<rparr>;
          rowOffsetsMemRef =
            rowOffsetsMemRef\<lparr>sizes :=
              (sizes rowOffsetsMemRef)[0 := size_t_to_int64 (getNumRows input + 1)]\<rparr>;
          rowOffsetsMemRef =
            rowOffsetsMemRef\<lparr>strides := (strides rowOffsetsMemRef)[0 := 1]\<rparr>;
          h' = increaseRefCounter input h
      in (rowOffsetsMemRef, h'))"

text \<open>
  What the consumer of a one-dimensional strided view reads at index \<open>i\<close>: the element
  \<open>offset + i * stride\<close> of the array at \<open>data\<close>, for an index inside the view and
  inside the array.
\<close>

definition memref_load :: "'v heap \<Rightarrow> StridedMemRefType \<Rightarrow> int \<Rightarrow> nat option" where
  "memref_load h v i =
     (case data v of
        None \<Rightarrow> None
      | Some a \<Rightarrow>
          (case buffers h a of
             Some (SizeArray xs) \<Rightarrow>
               (let k = offset v + i * (strides v ! 0)
                in if 0 \<le> i \<and> i < sizes v ! 0 \<and> 0 \<le> k \<and> k < int (length xs)
                   then Some (xs ! nat k) else None)
           | _ \<Rightarrow> None))"

text \<open>The sparse matrix of the specification's scenario: three rows, offsets 0, 2, 2, 5.\<close>

definition example_csr :: CSRMatrix where
  "example_csr = \<lparr>numRows = 3, numCols = 4, rowOffsets = 100, colIdxs = 200, csrValues = 300\<rparr>"

definition example_heap :: "int heap" where
  "example_heap =
     \<lparr>buffers = [100 \<mapsto> SizeArray [0, 2, 2, 5], 200 \<mapsto> SizeArray [0, 3, 1, 2, 3],
                 300 \<mapsto> ValueArray [7, 8, 9, 10, 11]],
      refCounter = (\<lambda>a. if a = 100 \<or> a = 200 \<or> a = 300 then 1 else 0)\<rparr>"

section \<open>Double-precision values\<close>

text \<open>
  The sequence kernel is instantiated here for \<^verbatim>\<open>VT = double\<close>. A double is a NaN, an
  infinity or a finite value, kept as the rational number it denotes. The two zeros are
  one value: the kernel compares them equal and never divides by one (the assertion
  on \<^verbatim>\<open>inc\<close> comes first). Arithmetic is IEEE 754 binary64 in the default mode: the
  exact result, rounded to the nearest representable value, ties to even.
\<close>

datatype double = NaN | PInf | NInf | Fin rat

definition pow2 :: "int \<Rightarrow> rat" where
  "pow2 e = (if 0 \<le> e then 2 ^ nat e else 1 / 2 ^ nat (- e))"

text \<open>The binary exponent of a positive rational: \<open>2 ^ e \<le> a < 2 ^ (e + 1)\<close>.\<close>

function floor_log2 :: "rat \<Rightarrow> int" where
  "floor_log2 a =
     (if a \<le> 0 then 0
      else if 2 \<le> a then floor_log2 (a / 2) + 1
      else if a < 1 then floor_log2 (2 * a) - 1
      else 0)"
  by pat_completeness auto
termination
proof (relation "measure (\<lambda>a. 2 * nat \<lceil>1 / a\<rceil> + nat \<lfloor>a\<rfloor>)")
  show "wf (measure (\<lambda>a::rat. 2 * nat \<lceil>1 / a\<rceil> + nat \<lfloor>a\<rfloor>))" by simp
next
  fix a :: rat
  assume "\<not> a \<le> 0" "2 \<le> a"
  then have one: "\<lceil>1 / (a / 2)\<rceil> = 1" "\<lceil>1 / a\<rceil> = 1"
    by (auto simp: ceiling_eq_iff)
  from \<open>2 \<le> a\<close> have "\<lfloor>a / 2\<rfloor> < \<lfloor>a\<rfloor>" "0 < \<lfloor>a\<rfloor>"
    by (auto simp: floor_less_iff) linarith+
  with one show "(a / 2, a) \<in> measure (\<lambda>a. 2 * nat \<lceil>1 / a\<rceil> + nat \<lfloor>a\<rfloor>)"
    by simp
next
  fix a :: rat
  assume a: "\<not> a \<le> 0" "\<not> 2 \<le> a" "a < 1"
  then have f: "\<lfloor>a\<rfloor> = 0" "\<lfloor>2 * a\<rfloor> \<le> 1" "0 \<le> \<lfloor>2 * a\<rfloor>"
    by (auto simp: floor_eq_iff floor_le_iff le_floor_iff)
  from a have "1 < 1 / a" by simp
  then have two: "2 \<le> \<lceil>1 / a\<rceil>" by (simp add: le_ceiling_iff)
  define x where "x = 1 / a"
  define c :: rat where "c = of_int \<lceil>1 / a\<rceil>"
  have "2 \<le> c" using two unfolding c_def by linarith
  moreover have "x \<le> c" unfolding x_def c_def by (rule le_of_int_ceiling)
  ultimately have "x / 2 \<le> c - 1" by linarith
  moreover have "1 / (2 * a) = x / 2" by (simp add: x_def)
  ultimately have "1 / (2 * a) \<le> of_int (\<lceil>1 / a\<rceil> - 1)"
    by (simp add: c_def)
  then have "\<lceil>1 / (2 * a)\<rceil> \<le> \<lceil>1 / a\<rceil> - 1" by (simp only: ceiling_le_iff)
  moreover from a have "0 < \<lceil>1 / (2 * a)\<rceil>" by (simp add: ceiling_less_iff)
  ultimately have "nat \<lceil>1 / (2 * a)\<rceil> < nat \<lceil>1 / a\<rceil>" by linarith
  moreover have "nat \<lfloor>2 * a\<rfloor> \<le> 1" using f by linarith
  ultimately have
    "2 * nat \<lceil>1 / (2 * a)\<rceil> + nat \<lfloor>2 * a\<rfloor> < 2 * nat \<lceil>1 / a\<rceil> + nat \<lfloor>a\<rfloor>"
    by linarith
  then show "(2 * a, a) \<in> measure (\<lambda>a. 2 * nat \<lceil>1 / a\<rceil> + nat \<lfloor>a\<rfloor>)"
    by (simp only: in_measure)
qed

declare floor_log2.simps [simp del]

definition round_half_even :: "rat \<Rightarrow> int" where
  "round_half_even x =
     (let f = \<lfloor>x\<rfloor>; r = x - of_int f
      in if r < 1 / 2 then f else if 1 / 2 < r then f + 1
         else if even f then f else f + 1)"

text \<open>
  The unit in the last place of a positive rational: 52 fraction bits below its
  exponent, the exponent no smaller than that of the subnormal numbers.
\<close>

definition ulp_exponent :: "rat \<Rightarrow> int" where
  "ulp_exponent a = max (floor_log2 a) (- 1022) - 52"

definition round_to_double :: "rat \<Rightarrow> rat" where
  "round_to_double a =
     of_int (round_half_even (a / pow2 (ulp_exponent a))) * pow2 (ulp_exponent a)"

text \<open>Rounding of an exact result; a magnitude that rounds to \<open>2 ^ 1024\<close> overflows.\<close>

definition fl :: "rat \<Rightarrow> double" where
  "fl q =
     (if q = 0 then Fin 0
      else if pow2 1024 \<le> round_to_double \<bar>q\<bar> then (if 0 < q then PInf else NInf)
      else Fin (if 0 < q then round_to_double \<bar>q\<bar> else - round_to_double \<bar>q\<bar>))"

fun fneg :: "double \<Rightarrow> double" where
  "fneg NaN = NaN"
| "fneg PInf = NInf"
| "fneg NInf = PInf"
| "fneg (Fin a) = Fin (- a)"

fun fadd :: "double \<Rightarrow> double \<Rightarrow> double" where
  "fadd NaN y = NaN"
| "fadd x NaN = NaN"
| "fadd PInf NInf = NaN"
| "fadd NInf PInf = NaN"
| "fadd PInf y = PInf"
| "fadd NInf y = NInf"
| "fadd x PInf = PInf"
| "fadd x NInf = NInf"
| "fadd (Fin a) (Fin b) = fl (a + b)"

definition fsub :: "double \<Rightarrow> double \<Rightarrow> double" where
  "fsub x y = fadd x (fneg y)"

text \<open>
  Division. A finite value divided by zero is an infinity of the dividend's sign (the
  divisor of the kernel is an absolute value, a positive zero).
\<close>

fun fdiv :: "double \<Rightarrow> double \<Rightarrow> double" where
  "fdiv NaN y = NaN"
| "fdiv x NaN = NaN"
| "fdiv PInf (Fin b) = (if 0 \<le> b then PInf else NInf)"
| "fdiv NInf (Fin b) = (if 0 \<le> b then NInf else PInf)"
| "fdiv PInf y = NaN"
| "fdiv NInf y = NaN"
| "fdiv (Fin a) (Fin b) =
     (if b = 0 then (if a = 0 then NaN else if 0 < a then PInf else NInf)
      else fl (a / b))"
| "fdiv (Fin a) y = Fin 0"

fun fabs :: "double \<Rightarrow> double" where
  "fabs NaN = NaN"
| "fabs PInf = PInf"
| "fabs NInf = PInf"
| "fabs (Fin a) = Fin \<bar>a\<bar>"

fun fceil :: "double \<Rightarrow> double" where
  "fceil (Fin a) = Fin (of_int \<lceil>a\<rceil>)"
| "fceil x = x"

text \<open>The comparisons: every ordered comparison with a NaN is false.\<close>

fun flt :: "double \<Rightarrow> double \<Rightarrow> bool" where
  "flt (Fin a) (Fin b) = (a < b)"
| "flt (Fin a) PInf = True"
| "flt NInf (Fin b) = True"
| "flt NInf PInf = True"
| "flt x y = False"

definition fgt :: "double \<Rightarrow> double \<Rightarrow> bool" where
  "fgt x y = flt y x"

fun feq :: "double \<Rightarrow> double \<Rightarrow> bool" where
  "feq NaN y = False"
| "feq x NaN = False"
| "feq x y = (x = y)"

definition fne :: "double \<Rightarrow> double \<Rightarrow> bool" where
  "fne x y = (\<not> feq x y)"

text \<open>
  The conversion of a double to \<^verbatim>\<open>size_t\<close> truncates toward zero; it is undefined
  (\<open>None\<close>) for a NaN, an infinity and a value whose truncation is not a \<^verbatim>\<open>size_t\<close>.
\<close>

fun to_size_t :: "double \<Rightarrow> nat option" where
  "to_size_t (Fin a) = (if - 1 < a \<and> a < 2 ^ 64 then Some (nat \<lfloor>a\<rfloor>) else None)"
| "to_size_t x = None"

section \<open>The sequence kernel\<close>

record DenseMatrix = Structure +
  values' :: "double list"

text \<open>
  Modelled from the spec: \<^verbatim>\<open>DataObjectFactory::create<DenseMatrix<VT>>\<close> (the
  header is missing): a new matrix of the given dimensions with a buffer of
  \<open>rows * cols\<close> cells. Without zero-initialisation the cells hold whatever the
  allocator left there, the argument \<open>junk\<close>.
\<close>

definition create :: "(nat \<Rightarrow> double) \<Rightarrow> nat \<Rightarrow> nat \<Rightarrow> bool \<Rightarrow> DenseMatrix" where
  "create junk r c zero =
     \<lparr>numRows = r, numCols = c,
      values' = map (\<lambda>k. if zero then Fin 0 else junk k) [0..<r * c]\<rparr>"

text \<open>
  Modelled from the spec: \<^verbatim>\<open>DenseMatrix::getValues\<close> (the header is missing), the
  pointer to the backing storage: writes through it are writes to the matrix.
\<close>

definition getValues :: "DenseMatrix \<Rightarrow> double list" where
  "getValues m = values' m"

text \<open>
  Modelled from the spec: \<^verbatim>\<open>DenseMatrix::shrinkNumRows\<close> (the header is missing):
  ``in-place row-count shrinkage (logically truncates without reallocating)''.
\<close>

definition shrinkNumRows :: "DenseMatrix \<Rightarrow> nat \<Rightarrow> DenseMatrix" where
  "shrinkNumRows m n = m\<lparr>numRows := n\<rparr>"

text \<open>
  How a call ends other than by returning: a failed \<^verbatim>\<open>assert\<close> aborts the process
  (assertions are taken as compiled in), a \<^verbatim>\<open>throw std::runtime_error\<close> reaches the
  caller as an exception, and undefined behaviour (a conversion out of range, an
  access outside the buffer) promises nothing.
\<close>

datatype error = AssertionFailed string | RuntimeError string | UndefinedBehaviour

text \<open>
  The classes of the specification's error taxonomy: \<^verbatim>\<open>InvalidArgument\<close> is the
  exception surfaced to the caller, \<^verbatim>\<open>PreconditionViolation\<close> the fatal,
  assertion-level failure.
\<close>

fun InvalidArgument :: "error \<Rightarrow> bool" where
  "InvalidArgument (RuntimeError msg) = True"
| "InvalidArgument e = False"

fun PreconditionViolation :: "error \<Rightarrow> bool" where
  "PreconditionViolation (AssertionFailed msg) = True"
| "PreconditionViolation e = False"

text \<open>
  Lines 62 and 63 of \<^verbatim>\<open>Seq.h\<close>: the number of rows to fill. For a double,
  \<^verbatim>\<open>abs\<close> is the floating-point overload; \<^verbatim>\<open>ceil(...) + 1\<close> is a double addition,
  and the initialisation of the \<^verbatim>\<open>size_t\<close> converts its result.
\<close>

definition expectedNumRows :: "double \<Rightarrow> double \<Rightarrow> double \<Rightarrow> nat option" where
  "expectedNumRows start end' inc =
     (let initialDistanceToEnd = fabs (fsub end' start)
      in to_size_t (fadd (fceil (fdiv initialDistanceToEnd (fabs inc))) (Fin 1)))"

text \<open>
  Lines 75 to 78: the loop \<^verbatim>\<open>for (i = 0; i < expectedNumRows; i++)\<close> from the state
  in which \<open>i\<close> rows are written. A write past the end of the buffer is undefined.
\<close>

function fill_loop :: "nat \<Rightarrow> nat \<Rightarrow> double \<Rightarrow> double \<Rightarrow> double list \<Rightarrow> error + double list"
  where
  "fill_loop i expected accumulatorValue inc allValues =
     (if i < expected
      then (if i < length allValues
            then fill_loop (i + 1) expected (fadd accumulatorValue inc) inc
                   (allValues[i := accumulatorValue])
            else Inl UndefinedBehaviour)
      else Inr allValues)"
  by pat_completeness auto
termination
  by (relation "measure (\<lambda>(i, expected, a, inc, vs). expected - i)") auto

declare fill_loop.simps [simp del]

text \<open>The tolerance of line 82, the double nearest to \<^verbatim>\<open>1.0e-13\<close>.\<close>

definition eps :: double where
  "eps = fl (1 / 10 ^ 13)"

text \<open>
  Lines 80 to 90: the last written value is compared with \<open>end\<close>, and the matrix
  loses its last row when that value lies beyond \<open>end\<close> by more than \<open>eps\<close>.
\<close>

definition boundary_correction :: "DenseMatrix \<Rightarrow> nat \<Rightarrow> double \<Rightarrow> double \<Rightarrow> DenseMatrix" where
  "boundary_correction m expected start end' =
     (let lastValue = getValues m ! (expected - 1)
      in if flt end' start \<and> fgt (fsub end' lastValue) eps
         then shrinkNumRows m (expected - 1)
         else if fgt end' start \<and> fgt (fsub lastValue end') eps
         then shrinkNumRows m (expected - 1)
         else m)"

text \<open>
  \<^verbatim>\<open>Seq<DenseMatrix<VT>>::apply\<close> (\<^verbatim>\<open>Seq.h\<close>, lines 53 to 91). The argument
  \<open>res\<close> is the pointer the caller passes by reference, \<open>None\<close> for \<^verbatim>\<open>nullptr\<close>. The
  result is how the call ended (\<open>None\<close>: it returned) and the matrix behind \<open>res\<close>
  at that moment. Reading \<^verbatim>\<open>allValues[expectedNumRows-1]\<close> with no row at all would
  be an access outside the buffer.
\<close>

definition Seq_apply ::
  "(nat \<Rightarrow> double) \<Rightarrow> DenseMatrix option \<Rightarrow> double \<Rightarrow> double \<Rightarrow> double
     \<Rightarrow> error option \<times> DenseMatrix option" where
  "Seq_apply junk res start end' inc =
     (if \<not> feq inc inc then (Some (AssertionFailed ''inc cannot be NaN''), res)
      else if \<not> feq start start then (Some (AssertionFailed ''start cannot be NaN''), res)
      else if \<not> feq end' end' then (Some (AssertionFailed ''end cannot be NaN''), res)
      else if \<not> fne inc (Fin 0) then (Some (AssertionFailed ''inc should not be zero''), res)
      else if (flt start end' \<and> flt inc (Fin 0)) \<or> (fgt start end' \<and> fgt inc (Fin 0))
      then (Some (RuntimeError ''The inc cannot lead to the boundary of the sequence''), res)
      else
        (case expectedNumRows start end' inc of
           None \<Rightarrow> (Some UndefinedBehaviour, res)
         | Some expected \<Rightarrow>
             (let numCols = 1;
                  allocated =
                    (case res of
                       None \<Rightarrow> Inr (create junk expected numCols False)
                     | Some m \<Rightarrow>
                         if getNumRows m = expected then Inr m
                         else Inl (AssertionFailed
                           ''input matrix is not null and may not fit the sequence''))
              in case allocated of
                   Inl e \<Rightarrow> (Some e, res)
                 | Inr m \<Rightarrow>
                     (case fill_loop 0 expected start inc (getValues m) of
                        Inl e \<Rightarrow> (Some e, Some m)
                      | Inr allValues \<Rightarrow>
                          if expected = 0 then (Some UndefinedBehaviour, Some m)
                          else (None, Some (boundary_correction (m\<lparr>values' := allValues\<rparr>)
                                              expected start end'))))))"

text \<open>
  The checks of lines 54 to 60 all pass: no operand is a NaN, the increment is not
  zero, and its sign agrees with the order of \<open>start\<close> and \<open>end\<close>.
\<close>

definition arguments_accepted :: "double \<Rightarrow> double \<Rightarrow> double \<Rightarrow> bool" where
  "arguments_accepted start end' inc =
     (feq inc inc \<and> feq start start \<and> feq end' end' \<and> fne inc (Fin 0) \<and>
      \<not> ((flt start end' \<and> flt inc (Fin 0)) \<or> (fgt start end' \<and> fgt inc (Fin 0))))"

text \<open>A dense matrix whose buffer has one cell for every entry.\<close>

definition well_formed :: "DenseMatrix \<Rightarrow> bool" where
  "well_formed m = (length (values' m) = numRows m * numCols m)"

text \<open>Two fillings of fresh memory, and a pre-allocated buffer of three rows and two columns.\<close>

definition junk_nan :: "nat \<Rightarrow> double" where
  "junk_nan k = NaN"

definition junk_count :: "nat \<Rightarrow> double" where
  "junk_count k = Fin (of_nat k)"

definition wide_buffer :: DenseMatrix where
  "wide_buffer = \<lparr>numRows = 3, numCols = 2, values' = [NaN, NaN, NaN, NaN, NaN, NaN]\<rparr>"

text \<open>
  The accumulator after \<open>k\<close> additions, as the specification describes the filling:
  \<open>value = start\<close>, then \<open>value += increment\<close> after each write.
\<close>

fun accumulated :: "double \<Rightarrow> double \<Rightarrow> nat \<Rightarrow> double" where
  "accumulated start inc 0 = start"
| "accumulated start inc (Suc k) = fadd (accumulated start inc k) inc"

section \<open>Properties of the row-offset view kernel\<close>

lemma size_t_to_int64_small: "n < 2 ^ 63 \<Longrightarrow> size_t_to_int64 n = int n"
  by (simp add: size_t_to_int64_def)

lemma fully_constructed_offsets:
  assumes "fully_constructed m h"
  obtains offs where "buffers h (rowOffsets m) = Some (SizeArray offs)"
    and "getRowOffsets m h = Some offs"
    and "length offs = numRows m + 1" and "numRows m + 1 < 2 ^ 63"
proof -
  from assms obtain offs where g: "getRowOffsets m h = Some offs"
    and len: "length offs = numRows m + 1" and sz: "8 * length offs < (2::nat) ^ 64"
    by (auto simp: fully_constructed_def getNumRows_def split: option.splits)
  from g have b: "buffers h (rowOffsets m) = Some (SizeArray offs)"
    by (auto simp: getRowOffsets_def split: option.splits buffer.splits)
  from sz len have "numRows m + 1 < (2::nat) ^ 63" by simp
  with b g len show thesis by (rule that)
qed

lemma convert_view:
  "fst (convertCSRMatrixToRowOffsetsMemRef input h) =
     \<lparr>basePtr = Some (rowOffsets input), data = Some (rowOffsets input), offset = 0,
      sizes = [size_t_to_int64 (numRows input + 1)], strides = [1]\<rparr>"
  by (simp add: convertCSRMatrixToRowOffsetsMemRef_def Let_def shared_ptr_get_def
      getRowOffsetsSharedPtr_def getNumRows_def)

lemma convert_heap:
  "snd (convertCSRMatrixToRowOffsetsMemRef input h) = increaseRefCounter input h"
  by (simp add: convertCSRMatrixToRowOffsetsMemRef_def Let_def)

text \<open>
  Claim C7. For a fully constructed sparse matrix with \<open>r\<close> rows the kernel returns a
  view with offset 0, the one size \<open>r + 1\<close>, the one stride 1, and base and data
  pointers equal to the address of the matrix's row-offset buffer. No buffer of the heap
  changes and none is added, and reading the view at the indices \<open>0, ..., r\<close> yields the
  matrix's row offsets.
\<close>

theorem row_offset_view_aliases_buffer:
  assumes fc: "fully_constructed input h"
    and conv: "convertCSRMatrixToRowOffsetsMemRef input h = (v, h')"
  shows "offset v = 0 \<and> sizes v = [int (getNumRows input + 1)] \<and> strides v = [1] \<and>
    basePtr v = shared_ptr_get (getRowOffsetsSharedPtr input) \<and> data v = basePtr v \<and>
    buffers h' = buffers h \<and>
    (\<exists>offs. getRowOffsets input h = Some offs \<and> getRowOffsets input h' = Some offs \<and>
       map (memref_load h' v) (map int [0..<getNumRows input + 1]) = map Some offs)"
proof -
  from fc obtain offs where b: "buffers h (rowOffsets input) = Some (SizeArray offs)"
    and g: "getRowOffsets input h = Some offs"
    and len: "length offs = numRows input + 1" and small: "numRows input + 1 < 2 ^ 63"
    by (rule fully_constructed_offsets)
  from conv have v: "v = \<lparr>basePtr = Some (rowOffsets input), data = Some (rowOffsets input),
      offset = 0, sizes = [int (numRows input + 1)], strides = [1]\<rparr>"
    using convert_view [of input h] size_t_to_int64_small [OF small] by simp
  from conv have h': "h' = increaseRefCounter input h"
    using convert_heap [of input h] by simp
  have bufs: "buffers h' = buffers h"
    by (simp add: h' increaseRefCounter_def)
  have g': "getRowOffsets input h' = Some offs"
    using g by (simp add: getRowOffsets_def bufs)
  have "memref_load h' v (int i) = Some (offs ! i)" if "i < numRows input + 1" for i
    using that b len by (simp add: memref_load_def v bufs)
  then have "map (memref_load h' v) (map int [0..<numRows input + 1]) = map Some offs"
    using len by (auto simp: list_eq_iff_nth_eq simp del: upt_Suc)
  with v bufs g g' show ?thesis
    by (simp add: getNumRows_def shared_ptr_get_def getRowOffsetsSharedPtr_def del: upt_Suc)
qed

theorem row_offset_view_aliases_buffer_witness:
  "fully_constructed example_csr example_heap \<and>
   getRowOffsets example_csr example_heap = Some [0, 2, 2, 5] \<and>
   fst (convertCSRMatrixToRowOffsetsMemRef example_csr example_heap) =
     \<lparr>basePtr = Some 100, data = Some 100, offset = 0, sizes = [4], strides = [1]\<rparr> \<and>
   map (memref_load (snd (convertCSRMatrixToRowOffsetsMemRef example_csr example_heap))
         (fst (convertCSRMatrixToRowOffsetsMemRef example_csr example_heap)))
       (map int [0..<getNumRows example_csr + 1]) = map Some [0, 2, 2, 5]"
proof -
  let ?v = "fst (convertCSRMatrixToRowOffsetsMemRef example_csr (example_heap :: int heap))"
  let ?h' = "snd (convertCSRMatrixToRowOffsetsMemRef example_csr (example_heap :: int heap))"
  have fc: "fully_constructed example_csr (example_heap :: int heap)"
    by (simp add: fully_constructed_def getRowOffsets_def example_csr_def example_heap_def
        getNumRows_def)
  have g: "getRowOffsets example_csr (example_heap :: int heap) = Some [0, 2, 2, 5]"
    by (simp add: getRowOffsets_def example_csr_def example_heap_def)
  have view: "?v = \<lparr>basePtr = Some 100, data = Some 100, offset = 0, sizes = [4], strides = [1]\<rparr>"
    by (simp add: convert_view example_csr_def size_t_to_int64_def)
  from row_offset_view_aliases_buffer [OF fc surjective_pairing]
  obtain offs where o: "getRowOffsets example_csr (example_heap :: int heap) = Some offs"
    and r: "map (memref_load ?h' ?v) (map int [0..<getNumRows example_csr + 1]) = map Some offs"
    by blast
  from o g have "offs = [0, 2, 2, 5]" by simp
  with r have "map (memref_load ?h' ?v) (map int [0..<getNumRows example_csr + 1]) =
      map Some [0, 2, 2, 5]"
    by (simp only:)
  with fc g view show ?thesis by (simp only: simp_thms)
qed

text \<open>
  Claim C4. The kernel raises the reference count of the row-offset buffer by exactly
  one. Every other count and every buffer of the heap (row offsets, column indices,
  values) is what it was; the matrix itself, dimensions included, is passed as a
  constant and is not written.
\<close>

theorem reference_count_incremented:
  assumes conv: "convertCSRMatrixToRowOffsetsMemRef input h = (v, h')"
  shows "refCounter h' (getRowOffsetsSharedPtr input) =
      refCounter h (getRowOffsetsSharedPtr input) + 1 \<and>
    (\<forall>a. a \<noteq> getRowOffsetsSharedPtr input \<longrightarrow> refCounter h' a = refCounter h a) \<and>
    buffers h' = buffers h \<and>
    getRowOffsets input h' = getRowOffsets input h \<and>
    fully_constructed input h' = fully_constructed input h"
proof -
  from conv have h': "h' = increaseRefCounter input h"
    using convert_heap [of input h] by simp
  show ?thesis
    by (simp add: h' increaseRefCounter_def getRowOffsetsSharedPtr_def getRowOffsets_def
        fully_constructed_def)
qed

theorem reference_count_incremented_witness:
  "refCounter (snd (convertCSRMatrixToRowOffsetsMemRef example_csr example_heap)) 100 = 2 \<and>
   refCounter (snd (convertCSRMatrixToRowOffsetsMemRef example_csr example_heap)) 200 = 1 \<and>
   buffers (snd (convertCSRMatrixToRowOffsetsMemRef example_csr example_heap)) =
     buffers example_heap"
  using reference_count_incremented [OF surjective_pairing, of example_csr "example_heap :: int heap"]
  by (simp add: getRowOffsetsSharedPtr_def example_csr_def example_heap_def)

section \<open>Properties of the rounding\<close>

lemma pow2_pos: "0 < pow2 e"
  by (simp add: pow2_def)

lemma pow2_powi: "pow2 e = 2 powi e"
  by (simp add: pow2_def power_int_def power_one_over inverse_eq_divide)

lemma pow2_add: "pow2 (a + b) = pow2 a * pow2 b"
  by (simp add: pow2_powi power_int_add)

lemma pow2_add1: "pow2 (e + 1) = 2 * pow2 e"
  by (simp add: pow2_add) (simp add: pow2_def)

lemma pow2_diff1: "pow2 (e - 1) = pow2 e / 2"
  using pow2_add1 [of "e - 1"] by simp

lemma pow2_mono: "e \<le> e' \<Longrightarrow> pow2 e \<le> pow2 e'"
  by (simp add: pow2_powi power_int_increasing)

lemma floor_log2_bounds:
  "0 < a \<Longrightarrow> pow2 (floor_log2 a) \<le> a \<and> a < pow2 (floor_log2 a + 1)"
proof (induction a rule: floor_log2.induct)
  case (1 a)
  show ?case
  proof (cases "2 \<le> a")
    case True
    with 1 have ih: "pow2 (floor_log2 (a / 2)) \<le> a / 2 \<and> a / 2 < pow2 (floor_log2 (a / 2) + 1)"
      by simp
    from True "1.prems" have eq: "floor_log2 a = floor_log2 (a / 2) + 1"
      by (subst floor_log2.simps) simp
    from ih show ?thesis unfolding eq pow2_add1 by linarith
  next
    case False
    show ?thesis
    proof (cases "a < 1")
      case True
      with 1 False have ih:
        "pow2 (floor_log2 (2 * a)) \<le> 2 * a \<and> 2 * a < pow2 (floor_log2 (2 * a) + 1)"
        by simp
      from True False "1.prems" have eq: "floor_log2 a = floor_log2 (2 * a) - 1"
        by (subst floor_log2.simps) simp
      from ih show ?thesis unfolding eq pow2_add1 pow2_diff1 by linarith
    next
      case nlt: False
      with False "1.prems" have "floor_log2 a = 0" by (subst floor_log2.simps) simp
      with False nlt show ?thesis by (simp add: pow2_def)
    qed
  qed
qed

lemma floor_log2_nonneg: "1 \<le> a \<Longrightarrow> 0 \<le> floor_log2 a"
proof (rule ccontr)
  assume a: "1 \<le> a" and "\<not> 0 \<le> floor_log2 a"
  then have "floor_log2 a + 1 \<le> 0" by simp
  then have "pow2 (floor_log2 a + 1) \<le> pow2 0" by (rule pow2_mono)
  moreover from a floor_log2_bounds [of a] have "a < pow2 (floor_log2 a + 1)" by simp
  ultimately show False using a by (simp add: pow2_def)
qed

lemma round_half_even_ge_floor: "\<lfloor>x\<rfloor> \<le> round_half_even x"
  by (simp add: round_half_even_def Let_def)

lemma round_to_double_nonneg: "0 \<le> a \<Longrightarrow> 0 \<le> round_to_double a"
proof -
  assume "0 \<le> a"
  then have "0 \<le> a / pow2 (ulp_exponent a)" using pow2_pos [of "ulp_exponent a"] by simp
  then have "0 \<le> \<lfloor>a / pow2 (ulp_exponent a)\<rfloor>" by simp
  then have "0 \<le> round_half_even (a / pow2 (ulp_exponent a))"
    using round_half_even_ge_floor [of "a / pow2 (ulp_exponent a)"] by linarith
  then show ?thesis
    using pow2_pos [of "ulp_exponent a"] by (simp add: round_to_double_def)
qed

lemma round_to_double_ge_1: assumes "1 \<le> a" shows "1 \<le> round_to_double a"
proof -
  define e where "e = floor_log2 a"
  have e0: "0 \<le> e" unfolding e_def using assms by (rule floor_log2_nonneg)
  then have u: "ulp_exponent a = e - 52" by (simp add: ulp_exponent_def e_def)
  have lo: "pow2 e \<le> a" using floor_log2_bounds [of a] assms by (simp add: e_def)
  have p: "pow2 e = 2 ^ 52 * pow2 (e - 52)"
    using pow2_add [of 52 "e - 52"] by (simp add: pow2_def)
  have "2 ^ 52 \<le> a / pow2 (e - 52)"
    using lo pow2_pos [of "e - 52"] by (simp add: p pos_le_divide_eq)
  then have "(2::int) ^ 52 \<le> \<lfloor>a / pow2 (e - 52)\<rfloor>" by (simp add: le_floor_iff)
  then have "(2::int) ^ 52 \<le> round_half_even (a / pow2 (e - 52))"
    using round_half_even_ge_floor [of "a / pow2 (e - 52)"] by linarith
  then have "(2::rat) ^ 52 \<le> of_int (round_half_even (a / pow2 (e - 52)))"
    by (metis of_int_le_iff of_int_numeral of_int_power)
  then have "2 ^ 52 * pow2 (e - 52) \<le> round_to_double a"
    using pow2_pos [of "e - 52"] by (simp add: round_to_double_def u)
  moreover have "1 \<le> pow2 e" using pow2_mono [OF e0] by (simp add: pow2_def)
  ultimately show ?thesis by (simp add: p)
qed

lemma fl_nonneg: "0 \<le> q \<Longrightarrow> fl q = PInf \<or> (\<exists>r. fl q = Fin r \<and> 0 \<le> r)"
  using round_to_double_nonneg [of "\<bar>q\<bar>"] by (auto simp: fl_def)

lemma fl_ge_1: "1 \<le> q \<Longrightarrow> fl q = PInf \<or> (\<exists>r. fl q = Fin r \<and> 1 \<le> r)"
  using round_to_double_ge_1 [of "\<bar>q\<bar>"] by (auto simp: fl_def)

lemma fl_nonpos: "q \<le> 0 \<Longrightarrow> fl q = NInf \<or> (\<exists>r. fl q = Fin r \<and> r \<le> 0)"
  using round_to_double_nonneg [of "\<bar>q\<bar>"] by (auto simp: fl_def)

lemma floor_rat_numeral: "\<lfloor>numeral a / numeral b :: rat\<rfloor> = numeral a div numeral b"
  using floor_divide_of_int_eq [of "numeral a" "numeral b", where ?'a = rat] by simp

lemma ceiling_rat_numeral:
  "\<lceil>numeral a / numeral b :: rat\<rceil> = - (- numeral a div numeral b)"
  using ceiling_divide_eq_div [of "numeral a" "numeral b", where ?'a = rat] by simp

lemmas fl_eval = floor_rat_numeral ceiling_rat_numeral fl_def round_to_double_def ulp_exponent_def
  floor_log2.simps pow2_def round_half_even_def Let_def

lemma eps_value: "eps = Fin (3961408125713217 / 39614081257132168796771975168)"
  by (simp add: eps_def fl_eval)

lemma fl_0: "fl 0 = Fin 0"
  by (simp add: fl_def)

lemma fl_1: "fl 1 = Fin 1"
  by (simp add: fl_eval)

section \<open>Properties of the sequence kernel\<close>

lemma accumulated_shift: "accumulated (fadd a inc) inc k = accumulated a inc (Suc k)"
  by (induction k) simp_all

lemma upt_0_Suc: "[0..<Suc k] = 0 # map Suc [0..<k]"
  by (simp only: map_Suc_upt upt_conv_Cons [of 0 "Suc k"] zero_less_Suc)

lemma fill_loop_writes:
  "i \<le> n \<Longrightarrow> n \<le> length vs \<Longrightarrow>
   fill_loop i n acc inc vs = Inr (take i vs @ map (accumulated acc inc) [0..<n - i] @ drop n vs)"
proof (induction i n acc inc vs rule: fill_loop.induct)
  case (1 i n acc inc vs)
  show ?case
  proof (cases "i < n")
    case True
    with "1.prems" have il: "i < length vs" by simp
    have step: "fill_loop i n acc inc vs = fill_loop (i + 1) n (fadd acc inc) inc (vs[i := acc])"
      using True il by (subst fill_loop.simps) simp
    have ih: "fill_loop (i + 1) n (fadd acc inc) inc (vs[i := acc]) =
        Inr (take (i + 1) (vs[i := acc]) @ map (accumulated (fadd acc inc) inc) [0..<n - (i + 1)]
             @ drop n (vs[i := acc]))"
      using "1.IH" [OF True il] True "1.prems" by simp
    have t: "take (i + 1) (vs[i := acc]) = take i vs @ [acc]"
      using il by (simp add: take_Suc_conv_app_nth)
    have d: "drop n (vs[i := acc]) = drop n vs"
      using True by simp
    from True have "n - i = Suc (n - (i + 1))" by simp
    then have m: "map (accumulated acc inc) [0..<n - i] =
        acc # map (accumulated (fadd acc inc) inc) [0..<n - (i + 1)]"
      by (simp only: upt_0_Suc) (simp add: accumulated_shift comp_def)
    show ?thesis by (simp only: step ih t d m) simp
  next
    case False
    with "1.prems" have "i = n" by simp
    then show ?thesis by (subst fill_loop.simps) simp
  qed
qed

lemma fill_loop_overrun:
  "i < n \<Longrightarrow> length vs < n \<Longrightarrow> fill_loop i n acc inc vs = Inl UndefinedBehaviour"
proof (induction i n acc inc vs rule: fill_loop.induct)
  case (1 i n acc inc vs)
  show ?case
  proof (cases "i < length vs")
    case True
    with "1.prems" have "Suc i < n" by simp
    with "1.IH" [OF "1.prems"(1) True] "1.prems" have
      "fill_loop (i + 1) n (fadd acc inc) inc (vs[i := acc]) = Inl UndefinedBehaviour"
      by simp
    with True "1.prems" show ?thesis by (subst fill_loop.simps) simp
  next
    case False
    with "1.prems" show ?thesis by (subst fill_loop.simps) simp
  qed
qed

lemma fill_loop_all:
  "length vs = n \<Longrightarrow> fill_loop 0 n start inc vs = Inr (map (accumulated start inc) [0..<n])"
  using fill_loop_writes [of 0 n vs start inc] by simp

lemma fabs_nonneg: "fabs x = Fin a \<Longrightarrow> 0 \<le> a"
  by (cases x) auto

lemma fdiv_fabs_nonneg: "fdiv (fabs x) (fabs y) = Fin q \<Longrightarrow> 0 \<le> q"
proof (cases x; cases y)
  fix a b assume xy: "x = Fin a" "y = Fin b" and q: "fdiv (fabs x) (fabs y) = Fin q"
  show "0 \<le> q"
  proof (cases "b = 0")
    case True
    with xy q show ?thesis by (auto split: if_splits)
  next
    case False
    with xy q have "fl (\<bar>a\<bar> / \<bar>b\<bar>) = Fin q" by simp
    with fl_nonneg [of "\<bar>a\<bar> / \<bar>b\<bar>"] show ?thesis by auto
  qed
qed auto

lemma expectedNumRows_pos: "expectedNumRows start end' inc = Some n \<Longrightarrow> 0 < n"
proof -
  assume n: "expectedNumRows start end' inc = Some n"
  define d where "d = fdiv (fabs (fsub end' start)) (fabs inc)"
  from n have t: "to_size_t (fadd (fceil d) (Fin 1)) = Some n"
    by (simp add: expectedNumRows_def d_def)
  show ?thesis
  proof (cases d)
    case (Fin q)
    then have "0 \<le> q" unfolding d_def by (rule fdiv_fabs_nonneg)
    then have "(1::rat) \<le> of_int \<lceil>q\<rceil> + 1" by simp
    from fl_ge_1 [OF this] Fin t show ?thesis
      by (auto split: if_splits simp: le_floor_iff)
  qed (use t in auto)
qed

lemma flt_not_NaN: "flt x y \<Longrightarrow> feq x x \<and> feq y y"
  by (cases x; cases y) auto

lemma flt_zero_fne: "flt x (Fin 0) \<Longrightarrow> fne x (Fin 0)"
  by (cases x) (auto simp: fne_def)

lemma fgt_zero_fne: "fgt x (Fin 0) \<Longrightarrow> fne x (Fin 0)"
  by (cases x) (auto simp: fne_def fgt_def)

lemma feq_self: "feq x x \<longleftrightarrow> x \<noteq> NaN"
  by (cases x) auto

lemma Seq_apply_rejected:
  "\<not> arguments_accepted start end' inc \<Longrightarrow>
   \<exists>e. Seq_apply junk res start end' inc = (Some e, res) \<and>
       (\<forall>junk' res'. Seq_apply junk' res' start end' inc = (Some e, res'))"
  by (auto simp: Seq_apply_def arguments_accepted_def)

lemma Seq_apply_no_count:
  "arguments_accepted start end' inc \<Longrightarrow> expectedNumRows start end' inc = None \<Longrightarrow>
   Seq_apply junk res start end' inc = (Some UndefinedBehaviour, res)"
  by (simp add: Seq_apply_def arguments_accepted_def)

lemma Seq_apply_null:
  assumes "arguments_accepted start end' inc" and n: "expectedNumRows start end' inc = Some n"
  shows "Seq_apply junk None start end' inc =
    (None, Some (boundary_correction
       \<lparr>numRows = n, numCols = 1, values' = map (accumulated start inc) [0..<n]\<rparr> n start end'))"
proof -
  from n have pos: "0 < n" by (rule expectedNumRows_pos)
  have "fill_loop 0 n start inc (getValues (create junk n 1 False)) =
      Inr (map (accumulated start inc) [0..<n])"
    by (rule fill_loop_all) (simp add: getValues_def create_def)
  with assms pos show ?thesis
    by (simp add: Seq_apply_def arguments_accepted_def create_def)
qed

lemma Seq_apply_buffer:
  assumes "arguments_accepted start end' inc" and n: "expectedNumRows start end' inc = Some n"
    and "getNumRows m = n" and len: "n \<le> length (getValues m)"
  shows "Seq_apply junk (Some m) start end' inc =
    (None, Some (boundary_correction
       (m\<lparr>values' := map (accumulated start inc) [0..<n] @ drop n (getValues m)\<rparr>) n start end'))"
proof -
  from n have pos: "0 < n" by (rule expectedNumRows_pos)
  have "fill_loop 0 n start inc (getValues m) =
      Inr (map (accumulated start inc) [0..<n] @ drop n (getValues m))"
    using fill_loop_writes [of 0 n "getValues m" start inc] len by simp
  with assms pos show ?thesis
    by (simp add: Seq_apply_def arguments_accepted_def)
qed

lemma Seq_apply_misfit:
  assumes "arguments_accepted start end' inc" and "expectedNumRows start end' inc = Some n"
    and "getNumRows m \<noteq> n"
  shows "Seq_apply junk (Some m) start end' inc =
    (Some (AssertionFailed ''input matrix is not null and may not fit the sequence''), Some m)"
  using assms by (simp add: Seq_apply_def arguments_accepted_def)

lemma Seq_apply_short:
  assumes "arguments_accepted start end' inc" and n: "expectedNumRows start end' inc = Some n"
    and "getNumRows m = n" and len: "length (getValues m) < n"
  shows "Seq_apply junk (Some m) start end' inc = (Some UndefinedBehaviour, Some m)"
proof -
  from n have pos: "0 < n" by (rule expectedNumRows_pos)
  from fill_loop_overrun [OF pos len]
  have "fill_loop 0 n start inc (getValues m) = Inl UndefinedBehaviour" .
  with assms show ?thesis
    by (simp add: Seq_apply_def arguments_accepted_def)
qed

lemma Seq_apply_returned:
  assumes ret: "Seq_apply junk res start end' inc = (None, r)"
  shows "arguments_accepted start end' inc"
    and "\<exists>n. expectedNumRows start end' inc = Some n"
    and "res = Some m \<Longrightarrow> expectedNumRows start end' inc = Some n \<Longrightarrow>
         getNumRows m = n \<and> n \<le> length (getValues m)"
proof -
  show acc: "arguments_accepted start end' inc"
    using ret Seq_apply_rejected [of start end' inc junk res] by (cases "arguments_accepted start end' inc") auto
  show "\<exists>n. expectedNumRows start end' inc = Some n"
    using ret Seq_apply_no_count [OF acc, of junk res]
    by (cases "expectedNumRows start end' inc") auto
  assume m: "res = Some m" and n: "expectedNumRows start end' inc = Some n"
  show "getNumRows m = n \<and> n \<le> length (getValues m)"
  proof (rule ccontr)
    assume "\<not> (getNumRows m = n \<and> n \<le> length (getValues m))"
    then consider "getNumRows m \<noteq> n" | "getNumRows m = n" "length (getValues m) < n"
      by linarith
    then show False
    proof cases
      case 1
      from Seq_apply_misfit [OF acc n 1, of junk] ret m show False by simp
    next
      case 2
      from Seq_apply_short [OF acc n 2, of junk] ret m show False by simp
    qed
  qed
qed

lemma boundary_correction_rows:
  "getNumRows (boundary_correction m n start end') = n - 1 \<or>
   getNumRows (boundary_correction m n start end') = getNumRows m"
  by (simp add: boundary_correction_def Let_def shrinkNumRows_def getNumRows_def)

lemma boundary_correction_frame:
  "getValues (boundary_correction m n start end') = getValues m"
  "values' (boundary_correction m n start end') = values' m"
  "numCols (boundary_correction m n start end') = numCols m"
  by (simp_all add: boundary_correction_def Let_def shrinkNumRows_def getValues_def)

lemma flt_asym: "flt x y \<Longrightarrow> \<not> flt y x"
  by (cases x; cases y) auto

lemma flt_fsub_not_beyond: "flt x y \<Longrightarrow> \<not> fgt (fsub x y) eps"
proof (cases x; cases y)
  fix a b assume xy: "x = Fin a" "y = Fin b" and "flt x y"
  then have "a - b \<le> 0" by simp
  from fl_nonpos [OF this] xy show "\<not> fgt (fsub x y) eps"
    by (auto simp: fsub_def fgt_def eps_value)
qed (auto simp: fsub_def fgt_def eps_value)

lemmas seq_eval = Seq_apply_def expectedNumRows_def boundary_correction_def fsub_def fgt_def fne_def
  eps_value fl_eval create_def getValues_def getNumRows_def shrinkNumRows_def fill_loop.simps
  arguments_accepted_def

text \<open>
  Claim C1. Whenever the kernel returns, the row count it computed is at least one,
  the last written cell holds the accumulator after \<open>expected - 1\<close> additions, and the
  result has \<open>expected - 1\<close> rows if and only if that value lies beyond \<open>end\<close> by more
  than \<open>eps\<close> in the direction of the sequence (descending: \<open>end - lastValue > eps\<close>;
  ascending: \<open>lastValue - end > eps\<close>). Otherwise it has \<open>expected\<close> rows; a row is
  never added, and a last value short of \<open>end\<close> leaves all \<open>expected\<close> rows.
\<close>

theorem boundary_correction_iff_overshoot:
  assumes ret: "Seq_apply junk res start end' inc = (None, Some r)"
    and n: "expectedNumRows start end' inc = Some n"
  shows "0 < n \<and> getValues r ! (n - 1) = accumulated start inc (n - 1) \<and>
    (getNumRows r = n - 1 \<longleftrightarrow>
       (flt end' start \<and> fgt (fsub end' (accumulated start inc (n - 1))) eps) \<or>
       (fgt end' start \<and> fgt (fsub (accumulated start inc (n - 1)) end') eps)) \<and>
    (getNumRows r = n - 1 \<or> getNumRows r = n) \<and>
    (flt (accumulated start inc (n - 1)) end' \<and> fgt end' start \<longrightarrow> getNumRows r = n) \<and>
    (flt end' (accumulated start inc (n - 1)) \<and> flt end' start \<longrightarrow> getNumRows r = n)"
proof -
  from n have pos: "0 < n" by (rule expectedNumRows_pos)
  note acc = Seq_apply_returned(1) [OF ret]
  define vs where "vs = map (accumulated start inc) [0..<n]"
  have last: "\<And>tl. (vs @ tl) ! (n - 1) = accumulated start inc (n - 1)"
    using pos by (simp add: vs_def nth_append)
  obtain m where r: "r = boundary_correction m n start end'"
    and lastv: "getValues m ! (n - 1) = accumulated start inc (n - 1)" and rows: "getNumRows m = n"
  proof (cases res)
    case None
    with ret Seq_apply_null [OF acc n, of junk]
    have "r = boundary_correction \<lparr>numRows = n, numCols = 1, values' = vs\<rparr> n start end'"
      by (simp add: vs_def)
    moreover have "getValues \<lparr>numRows = n, numCols = 1, values' = vs\<rparr> ! (n - 1) =
        accumulated start inc (n - 1)"
      using last [of "[]"] by (simp add: getValues_def)
    ultimately show ?thesis by (rule that) (simp add: getNumRows_def)
  next
    case (Some b)
    from Seq_apply_returned(3) [OF ret Some n]
    have fit: "getNumRows b = n" "n \<le> length (getValues b)" by simp_all
    with ret Some Seq_apply_buffer [OF acc n fit, of junk]
    have "r = boundary_correction (b\<lparr>values' := vs @ drop n (getValues b)\<rparr>) n start end'"
      by (simp add: vs_def)
    moreover have "getValues (b\<lparr>values' := vs @ drop n (getValues b)\<rparr>) ! (n - 1) =
        accumulated start inc (n - 1)"
      using last [of "drop n (getValues b)"] by (simp add: getValues_def)
    moreover have "getNumRows (b\<lparr>values' := vs @ drop n (getValues b)\<rparr>) = n"
      using fit by (simp add: getNumRows_def)
    ultimately show ?thesis by (rule that)
  qed
  from lastv have lastv': "getValues m ! (n - Suc 0) = accumulated start inc (n - Suc 0)"
    by simp
  have v: "getValues r ! (n - 1) = accumulated start inc (n - 1)"
    by (simp add: r boundary_correction_frame lastv')
  have iff: "getNumRows r = n - 1 \<longleftrightarrow>
       (flt end' start \<and> fgt (fsub end' (accumulated start inc (n - 1))) eps) \<or>
       (fgt end' start \<and> fgt (fsub (accumulated start inc (n - 1)) end') eps)"
    using pos rows
    by (auto simp: r boundary_correction_def Let_def lastv' shrinkNumRows_def getNumRows_def)
  have either: "getNumRows r = n - 1 \<or> getNumRows r = n"
    using boundary_correction_rows [of m n start end'] by (simp add: r rows)
  have up: "flt (accumulated start inc (n - 1)) end' \<and> fgt end' start \<longrightarrow> getNumRows r = n"
    using flt_fsub_not_beyond [of "accumulated start inc (n - 1)" end'] rows
    by (auto simp: r boundary_correction_def Let_def lastv' fgt_def dest: flt_asym)
  have down: "flt end' (accumulated start inc (n - 1)) \<and> flt end' start \<longrightarrow> getNumRows r = n"
    using flt_fsub_not_beyond [of end' "accumulated start inc (n - 1)"] rows
    by (auto simp: r boundary_correction_def Let_def lastv' fgt_def dest: flt_asym)
  from pos v iff either up down show ?thesis by blast
qed

theorem boundary_correction_iff_overshoot_witness:
  "Seq_apply junk_nan None (Fin 0) (Fin 1) (Fin (3 / 4)) =
     (None, Some \<lparr>numRows = 2, numCols = 1, values' = [Fin 0, Fin (3 / 4), Fin (3 / 2)]\<rparr>) \<and>
   expectedNumRows (Fin 0) (Fin 1) (Fin (3 / 4)) = Some 3 \<and>
   getNumRows \<lparr>numRows = 2, numCols = 1, values' = [Fin 0, Fin (3 / 4), Fin (3 / 2)]\<rparr> = 3 - 1 \<and>
   fgt (Fin 1) (Fin 0) \<and> fgt (fsub (accumulated (Fin 0) (Fin (3 / 4)) (3 - 1)) (Fin 1)) eps"
proof -
  have ret: "Seq_apply junk_nan None (Fin 0) (Fin 1) (Fin (3 / 4)) =
     (None, Some \<lparr>numRows = 2, numCols = 1, values' = [Fin 0, Fin (3 / 4), Fin (3 / 2)]\<rparr>)"
    by (simp add: seq_eval eval_nat_numeral)
  have n: "expectedNumRows (Fin 0) (Fin 1) (Fin (3 / 4)) = Some 3"
    by (simp add: seq_eval)
  from boundary_correction_iff_overshoot [OF ret n] ret n show ?thesis
    by (simp add: getNumRows_def fgt_def)
qed

text \<open>
  Claim C2, as the code has it. A NaN operand or a zero increment stops the kernel at
  one of its four assertions before \<open>res\<close> is touched: the failure is the fatal,
  assertion-level one, not the exception that \<^verbatim>\<open>InvalidArgument\<close> stands for.
\<close>

theorem nan_or_zero_increment_aborts:
  assumes "inc = NaN \<or> start = NaN \<or> end' = NaN \<or> feq inc (Fin 0)"
  shows "\<exists>e. Seq_apply junk res start end' inc = (Some e, res) \<and>
             PreconditionViolation e \<and> \<not> InvalidArgument e"
  using assms by (auto simp: Seq_apply_def feq_self fne_def)

theorem nan_or_zero_increment_aborts_witness:
  "(Fin 0 = NaN \<or> Fin 0 = NaN \<or> NaN = NaN \<or> feq (Fin 0) (Fin 0)) \<and>
   (\<exists>e. Seq_apply junk_nan None (Fin 0) NaN (Fin 0) = (Some e, None) \<and>
        PreconditionViolation e \<and> \<not> InvalidArgument e)"
  using nan_or_zero_increment_aborts [of "Fin 0" "Fin 0" NaN junk_nan None] by simp

text \<open>
  Claim C2 as stated fails: a zero increment ends in a failed assertion, which is not
  an \<^verbatim>\<open>InvalidArgument\<close> error surfaced to the caller.
\<close>

theorem zero_increment_counterexample:
  "Seq_apply junk_nan None (Fin 0) (Fin 1) (Fin 0) =
     (Some (AssertionFailed ''inc should not be zero''), None) \<and>
   \<not> InvalidArgument (AssertionFailed ''inc should not be zero'')"
  by (simp add: Seq_apply_def fne_def)

text \<open>
  Claim C3, as the code has it. For accepted arguments with row count \<open>n\<close>: a null
  \<open>res\<close> gets a new single-column matrix with a buffer of \<open>n\<close> cells; a non-null \<open>res\<close>
  with another row count fails the assertion (a precondition violation, not an
  exception); and a non-null \<open>res\<close> on which the kernel returns had \<open>n\<close> rows and keeps
  its column count and its buffer, whatever the column count is.
\<close>

theorem buffer_has_expected_rows:
  assumes acc: "arguments_accepted start end' inc"
    and n: "expectedNumRows start end' inc = Some n"
  shows "(\<exists>r. Seq_apply junk None start end' inc = (None, Some r) \<and> numCols r = 1 \<and>
            length (getValues r) = n \<and> (getNumRows r = n \<or> getNumRows r = n - 1)) \<and>
    (getNumRows m \<noteq> n \<longrightarrow>
       (\<exists>e. Seq_apply junk (Some m) start end' inc = (Some e, Some m) \<and>
            PreconditionViolation e \<and> \<not> InvalidArgument e)) \<and>
    (\<forall>r. Seq_apply junk (Some m) start end' inc = (None, Some r) \<longrightarrow>
       getNumRows m = n \<and> numCols r = numCols m \<and>
       length (getValues r) = length (getValues m) \<and>
       (getNumRows r = n \<or> getNumRows r = n - 1))"
proof -
  let ?fresh = "\<lparr>numRows = n, numCols = 1, values' = map (accumulated start inc) [0..<n]\<rparr>"
  have "getNumRows (boundary_correction ?fresh n start end') = n \<or>
      getNumRows (boundary_correction ?fresh n start end') = n - 1"
    using boundary_correction_rows [of ?fresh n start end'] by (auto simp: getNumRows_def)
  then have fresh: "\<exists>r. Seq_apply junk None start end' inc = (None, Some r) \<and> numCols r = 1 \<and>
            length (getValues r) = n \<and> (getNumRows r = n \<or> getNumRows r = n - 1)"
    by (simp add: Seq_apply_null [OF acc n] boundary_correction_frame) (simp add: getValues_def)
  have misfit: "\<exists>e. Seq_apply junk (Some m) start end' inc = (Some e, Some m) \<and>
            PreconditionViolation e \<and> \<not> InvalidArgument e" if "getNumRows m \<noteq> n"
    using Seq_apply_misfit [OF acc n that, of junk] by simp
  have used: "getNumRows m = n \<and> numCols r = numCols m \<and>
       length (getValues r) = length (getValues m) \<and>
       (getNumRows r = n \<or> getNumRows r = n - 1)"
    if ret: "Seq_apply junk (Some m) start end' inc = (None, Some r)" for r
  proof -
    from Seq_apply_returned(3) [OF ret refl n]
    have fit: "getNumRows m = n" "n \<le> length (getValues m)" by simp_all
    let ?filled = "m\<lparr>values' := map (accumulated start inc) [0..<n] @ drop n (getValues m)\<rparr>"
    from ret Seq_apply_buffer [OF acc n fit, of junk]
    have r: "r = boundary_correction ?filled n start end'" by simp
    have "getNumRows r = n \<or> getNumRows r = n - 1"
      using boundary_correction_rows [of ?filled n start end'] fit
      by (auto simp: r getNumRows_def)
    moreover have "numCols r = numCols m" "length (getValues r) = length (getValues m)"
      using fit by (simp_all add: r boundary_correction_frame) (simp add: getValues_def)
    ultimately show ?thesis using fit by simp
  qed
  from fresh misfit used show ?thesis by blast
qed

theorem buffer_has_expected_rows_witness:
  "arguments_accepted (Fin 0) (Fin 2) (Fin 1) \<and> expectedNumRows (Fin 0) (Fin 2) (Fin 1) = Some 3 \<and>
   (\<exists>r. Seq_apply junk_nan None (Fin 0) (Fin 2) (Fin 1) = (None, Some r) \<and> numCols r = 1 \<and>
        length (getValues r) = 3) \<and>
   getNumRows \<lparr>numRows = 2, numCols = 1, values' = [NaN, NaN]\<rparr> \<noteq> 3 \<and>
   (\<exists>e. Seq_apply junk_nan (Some \<lparr>numRows = 2, numCols = 1, values' = [NaN, NaN]\<rparr>)
          (Fin 0) (Fin 2) (Fin 1) =
          (Some e, Some \<lparr>numRows = 2, numCols = 1, values' = [NaN, NaN]\<rparr>) \<and>
        PreconditionViolation e)"
proof -
  have acc: "arguments_accepted (Fin 0) (Fin 2) (Fin 1)"
    by (simp add: arguments_accepted_def fne_def fgt_def)
  have n: "expectedNumRows (Fin 0) (Fin 2) (Fin 1) = Some 3"
    by (simp add: seq_eval)
  from buffer_has_expected_rows [OF acc n, of junk_nan
      "\<lparr>numRows = 2, numCols = 1, values' = [NaN, NaN]\<rparr>"] acc n
  show ?thesis by (auto simp: getNumRows_def)
qed

text \<open>
  Claim C3 as stated fails: a pre-allocated matrix with the expected three rows and
  two columns is accepted and used, so the buffer used need not have one column.
\<close>

theorem wide_buffer_counterexample:
  "arguments_accepted (Fin 0) (Fin 2) (Fin 1) \<and> expectedNumRows (Fin 0) (Fin 2) (Fin 1) = Some 3 \<and>
   Seq_apply junk_nan (Some wide_buffer) (Fin 0) (Fin 2) (Fin 1) =
     (None, Some \<lparr>numRows = 3, numCols = 2,
                   values' = [Fin 0, Fin 1, Fin 2, NaN, NaN, NaN]\<rparr>) \<and>
   numCols \<lparr>numRows = 3, numCols = 2, values' = [Fin 0, Fin 1, Fin 2, NaN, NaN, NaN]\<rparr> \<noteq> 1"
  by (simp add: seq_eval wide_buffer_def)

text \<open>
  Claim C5. An increment whose sign contradicts the order of \<open>start\<close> and \<open>end\<close> makes
  the kernel throw its runtime error (the \<^verbatim>\<open>InvalidArgument\<close> class), and \<open>res\<close> is what
  it was: nothing was allocated or written.
\<close>

theorem sign_mismatch_throws:
  assumes "(flt start end' \<and> flt inc (Fin 0)) \<or> (fgt start end' \<and> fgt inc (Fin 0))"
  shows "Seq_apply junk res start end' inc =
      (Some (RuntimeError ''The inc cannot lead to the boundary of the sequence''), res) \<and>
    InvalidArgument (RuntimeError ''The inc cannot lead to the boundary of the sequence'')"
proof -
  from assms have "feq inc inc" "feq start start" "feq end' end'" "fne inc (Fin 0)"
    by (auto simp: fgt_def dest: flt_not_NaN flt_zero_fne fgt_zero_fne [unfolded fgt_def])
  with assms show ?thesis by (simp add: Seq_apply_def)
qed

theorem sign_mismatch_throws_witness:
  "fgt (Fin 1) (Fin 0) \<and> fgt (Fin 1) (Fin 0) \<and>
   Seq_apply junk_nan (Some wide_buffer) (Fin 1) (Fin 0) (Fin 1) =
      (Some (RuntimeError ''The inc cannot lead to the boundary of the sequence''),
       Some wide_buffer)"
proof -
  have h: "(flt (Fin 1) (Fin 0) \<and> flt (Fin 1) (Fin 0)) \<or> (fgt (Fin 1) (Fin 0) \<and> fgt (Fin 1) (Fin 0))"
    by (simp add: fgt_def)
  from sign_mismatch_throws [OF h, of junk_nan "Some wide_buffer"] show ?thesis
    by (simp add: fgt_def)
qed

text \<open>
  Claim C6. Whenever the kernel returns, cell \<open>k\<close> of the buffer, for every \<open>k\<close> below
  the row count, holds the accumulator after \<open>k\<close> additions of the increment
  (\<open>accumulated\<close>: \<open>value = start\<close>, then \<open>value += inc\<close>); the first cell is \<open>start\<close> itself.
\<close>

theorem rows_filled_by_accumulation:
  assumes ret: "Seq_apply junk res start end' inc = (None, Some r)"
    and n: "expectedNumRows start end' inc = Some n"
  shows "(\<forall>k<n. getValues r ! k = accumulated start inc k) \<and> getValues r ! 0 = start \<and>
    0 < n \<and> n \<le> length (getValues r)"
proof -
  from n have pos: "0 < n" by (rule expectedNumRows_pos)
  note acc = Seq_apply_returned(1) [OF ret]
  have "\<exists>tl. getValues r = map (accumulated start inc) [0..<n] @ tl"
  proof (cases res)
    case None
    with ret Seq_apply_null [OF acc n, of junk] show ?thesis
      by (auto simp: boundary_correction_frame getValues_def)
  next
    case (Some b)
    from Seq_apply_returned(3) [OF ret Some n]
    have fit: "getNumRows b = n" "n \<le> length (getValues b)" by simp_all
    with ret Some Seq_apply_buffer [OF acc n fit, of junk] show ?thesis
      by (auto simp: boundary_correction_frame getValues_def)
  qed
  then obtain tl where v: "getValues r = map (accumulated start inc) [0..<n] @ tl" ..
  have cells: "\<forall>k<n. getValues r ! k = accumulated start inc k"
    by (simp add: v nth_append)
  with pos have "getValues r ! 0 = accumulated start inc 0" by blast
  with cells pos v show ?thesis by simp
qed

theorem rows_filled_by_accumulation_witness:
  "Seq_apply junk_nan None (Fin 5) (Fin 3) (Fin (- 1)) =
     (None, Some \<lparr>numRows = 3, numCols = 1, values' = [Fin 5, Fin 4, Fin 3]\<rparr>) \<and>
   expectedNumRows (Fin 5) (Fin 3) (Fin (- 1)) = Some 3 \<and>
   getValues \<lparr>numRows = 3, numCols = 1, values' = [Fin 5, Fin 4, Fin 3]\<rparr> ! 0 = Fin 5 \<and>
   getValues \<lparr>numRows = 3, numCols = 1, values' = [Fin 5, Fin 4, Fin 3]\<rparr> ! 2 =
     accumulated (Fin 5) (Fin (- 1)) 2"
proof -
  have ret: "Seq_apply junk_nan None (Fin 5) (Fin 3) (Fin (- 1)) =
     (None, Some \<lparr>numRows = 3, numCols = 1, values' = [Fin 5, Fin 4, Fin 3]\<rparr>)"
    by (simp add: seq_eval eval_nat_numeral)
  have n: "expectedNumRows (Fin 5) (Fin 3) (Fin (- 1)) = Some 3"
    by (simp add: seq_eval)
  from rows_filled_by_accumulation [OF ret n] ret n show ?thesis
    by (simp add: getValues_def eval_nat_numeral fl_eval)
qed

text \<open>
  Claim C8, as the code has it. For a finite \<open>start = end\<close> and an increment that is
  neither NaN nor zero, the kernel returns the one-row sequence holding \<open>start\<close>, with
  no truncation: in a new matrix when \<open>res\<close> is null, in the first cell of a
  pre-allocated one-row matrix otherwise.
\<close>

theorem degenerate_sequence:
  assumes "feq inc inc" and "fne inc (Fin 0)"
  shows "Seq_apply junk None (Fin a) (Fin a) inc =
      (None, Some \<lparr>numRows = 1, numCols = 1, values' = [Fin a]\<rparr>) \<and>
    (getNumRows m = 1 \<and> 1 \<le> length (getValues m) \<longrightarrow>
      Seq_apply junk (Some m) (Fin a) (Fin a) inc =
        (None, Some (m\<lparr>values' := (getValues m)[0 := Fin a]\<rparr>)))"
proof -
  have acc: "arguments_accepted (Fin a) (Fin a) inc"
    using assms by (simp add: arguments_accepted_def fgt_def)
  have "fdiv (Fin 0) (fabs inc) = Fin 0"
    using assms by (cases inc) (auto simp: fne_def fl_0)
  then have n: "expectedNumRows (Fin a) (Fin a) inc = Some 1"
    by (simp add: expectedNumRows_def fsub_def fl_0 fl_1)
  have same: "boundary_correction b k (Fin a) (Fin a) = b" for b k
    by (simp add: boundary_correction_def fgt_def)
  have null: "Seq_apply junk None (Fin a) (Fin a) inc =
      (None, Some \<lparr>numRows = 1, numCols = 1, values' = [Fin a]\<rparr>)"
    by (simp add: Seq_apply_null [OF acc n] same)
  have "Seq_apply junk (Some m) (Fin a) (Fin a) inc =
        (None, Some (m\<lparr>values' := (getValues m)[0 := Fin a]\<rparr>))"
    if fit: "getNumRows m = 1" "1 \<le> length (getValues m)"
  proof -
    from fit(2) obtain v vs where "getValues m = v # vs" by (cases "getValues m") auto
    then show ?thesis by (simp add: Seq_apply_buffer [OF acc n fit] same)
  qed
  with null show ?thesis by simp
qed

theorem degenerate_sequence_witness:
  "feq (Fin (- 2)) (Fin (- 2)) \<and> fne (Fin (- 2)) (Fin 0) \<and>
   Seq_apply junk_nan None (Fin 7) (Fin 7) (Fin (- 2)) =
      (None, Some \<lparr>numRows = 1, numCols = 1, values' = [Fin 7]\<rparr>)"
proof -
  have h: "feq (Fin (- 2)) (Fin (- 2))" "fne (Fin (- 2)) (Fin 0)" by (simp_all add: fne_def)
  from degenerate_sequence [OF h, of junk_nan 7] h show ?thesis by simp
qed

text \<open>
  Claim C8 as stated fails for infinite bounds: with \<open>start = end = +\<infinity>\<close> the
  distance \<open>end - start\<close> is a NaN, and its conversion to a row count is undefined.
\<close>

theorem infinite_bounds_counterexample:
  "feq PInf PInf \<and> feq (Fin 1) (Fin 1) \<and> fne (Fin 1) (Fin 0) \<and>
   Seq_apply junk_nan None PInf PInf (Fin 1) = (Some UndefinedBehaviour, None)"
  by (simp add: Seq_apply_def expectedNumRows_def fsub_def fne_def fgt_def)

text \<open>
  Claim C9. Two calls with the same \<open>start\<close>, \<open>end\<close> and increment and a null \<open>res\<close>
  end the same way and, when they return, with the same matrix: the same row count,
  the same column count and the same values, whatever the fresh memory held.
\<close>

theorem fresh_runs_identical:
  "Seq_apply junk1 None start end' inc = Seq_apply junk2 None start end' inc"
proof (cases "arguments_accepted start end' inc")
  case True
  show ?thesis
  proof (cases "expectedNumRows start end' inc")
    case None
    with True show ?thesis by (simp add: Seq_apply_no_count)
  next
    case (Some n)
    with True show ?thesis by (simp add: Seq_apply_null)
  qed
next
  case False
  from Seq_apply_rejected [OF False, of junk1 None] show ?thesis by auto
qed

theorem fresh_runs_identical_witness:
  "Seq_apply junk_nan None (Fin 0) (Fin 1) (Fin (3 / 4)) =
     Seq_apply junk_count None (Fin 0) (Fin 1) (Fin (3 / 4)) \<and>
   Seq_apply junk_count None (Fin 0) (Fin 1) (Fin (3 / 4)) =
     (None, Some \<lparr>numRows = 2, numCols = 1, values' = [Fin 0, Fin (3 / 4), Fin (3 / 2)]\<rparr>)"
proof -
  have "Seq_apply junk_count None (Fin 0) (Fin 1) (Fin (3 / 4)) =
     (None, Some \<lparr>numRows = 2, numCols = 1, values' = [Fin 0, Fin (3 / 4), Fin (3 / 2)]\<rparr>)"
    by (simp add: seq_eval eval_nat_numeral)
  with fresh_runs_identical [of junk_nan "Fin 0" "Fin 1" "Fin (3 / 4)" junk_count]
  show ?thesis by simp
qed

text \<open>
  Claim C10. Two pre-allocated single-column matrices with the expected row count and
  different contents: the two calls end the same way, and for accepted arguments both
  return the same matrix, every cell of which is an accumulated value.
\<close>

theorem prior_contents_do_not_matter:
  assumes n: "expectedNumRows start end' inc = Some n"
    and m1: "getNumRows m1 = n" "numCols m1 = 1" "well_formed m1"
    and m2: "getNumRows m2 = n" "numCols m2 = 1" "well_formed m2"
  shows "fst (Seq_apply junk1 (Some m1) start end' inc) =
      fst (Seq_apply junk2 (Some m2) start end' inc) \<and>
    (arguments_accepted start end' inc \<longrightarrow>
      (\<exists>r. Seq_apply junk1 (Some m1) start end' inc = (None, Some r) \<and>
           Seq_apply junk2 (Some m2) start end' inc = (None, Some r) \<and>
           getValues r = map (accumulated start inc) [0..<n]))"
proof (cases "arguments_accepted start end' inc")
  case True
  from m1 m2 have len: "length (getValues m1) = n" "length (getValues m2) = n"
    by (simp_all add: well_formed_def getValues_def getNumRows_def)
  let ?vs = "map (accumulated start inc) [0..<n]"
  have same: "m1\<lparr>values' := ?vs\<rparr> = m2\<lparr>values' := ?vs\<rparr>"
    using m1 m2 by (cases m1, cases m2) (simp add: getNumRows_def)
  have r1: "Seq_apply junk1 (Some m1) start end' inc =
      (None, Some (boundary_correction (m1\<lparr>values' := ?vs\<rparr>) n start end'))"
    using Seq_apply_buffer [OF True n m1(1), of junk1] len by simp
  have r2: "Seq_apply junk2 (Some m2) start end' inc =
      (None, Some (boundary_correction (m1\<lparr>values' := ?vs\<rparr>) n start end'))"
    using Seq_apply_buffer [OF True n m2(1), of junk2] len by (simp add: same)
  show ?thesis
    by (simp add: r1 r2 boundary_correction_frame) (simp add: getValues_def)
next
  case False
  from Seq_apply_rejected [OF False, of junk1 "Some m1"] False show ?thesis by auto
qed

theorem prior_contents_do_not_matter_witness:
  "expectedNumRows (Fin 0) (Fin 2) (Fin 1) = Some 3 \<and>
   well_formed \<lparr>numRows = 3, numCols = 1, values' = [NaN, PInf, Fin 9]\<rparr> \<and>
   well_formed \<lparr>numRows = 3, numCols = 1, values' = [Fin 1, Fin 1, Fin 1]\<rparr> \<and>
   arguments_accepted (Fin 0) (Fin 2) (Fin 1) \<and>
   (\<exists>r. Seq_apply junk_nan (Some \<lparr>numRows = 3, numCols = 1, values' = [NaN, PInf, Fin 9]\<rparr>)
          (Fin 0) (Fin 2) (Fin 1) = (None, Some r) \<and>
        Seq_apply junk_nan (Some \<lparr>numRows = 3, numCols = 1, values' = [Fin 1, Fin 1, Fin 1]\<rparr>)
          (Fin 0) (Fin 2) (Fin 1) = (None, Some r))"
proof -
  have n: "expectedNumRows (Fin 0) (Fin 2) (Fin 1) = Some 3"
    by (simp add: seq_eval)
  have acc: "arguments_accepted (Fin 0) (Fin 2) (Fin 1)"
    by (simp add: arguments_accepted_def fne_def fgt_def)
  have wf: "well_formed \<lparr>numRows = 3, numCols = 1, values' = [NaN, PInf, Fin 9]\<rparr>"
    "well_formed \<lparr>numRows = 3, numCols = 1, values' = [Fin 1, Fin 1, Fin 1]\<rparr>"
    by (simp_all add: well_formed_def)
  from prior_contents_do_not_matter [OF n _ _ wf(1) _ _ wf(2), of junk_nan junk_nan] n acc wf
  show ?thesis by (auto simp: getNumRows_def)
qed

section \<open>The scenarios of the specification\<close>

text \<open>
  The sequences from 0 to 10 by 1 and from 5 down to 0 by -1 have eleven and six
  rows. From 0 to 1 by 0.3 (the double nearest to it) five rows are filled, the fifth
  value 1.2 lies beyond 1, and four rows remain.
\<close>

lemma scenario_0_to_10:
  "Seq_apply junk None (Fin 0) (Fin 10) (Fin 1) =
     (None, Some \<lparr>numRows = 11, numCols = 1,
        values' = [Fin 0, Fin 1, Fin 2, Fin 3, Fin 4, Fin 5, Fin 6, Fin 7, Fin 8, Fin 9, Fin 10]\<rparr>)"
  by (simp add: seq_eval eval_nat_numeral)

lemma scenario_5_down_to_0:
  "Seq_apply junk None (Fin 5) (Fin 0) (Fin (- 1)) =
     (None, Some \<lparr>numRows = 6, numCols = 1,
        values' = [Fin 5, Fin 4, Fin 3, Fin 2, Fin 1, Fin 0]\<rparr>)"
  by (simp add: seq_eval eval_nat_numeral)

lemma fl_three_tenths: "fl (3 / 10) = Fin (5404319552844595 / 18014398509481984)"
  by (simp add: fl_eval)

lemma scenario_0_to_1_by_three_tenths:
  "Seq_apply junk None (Fin 0) (Fin 1) (Fin (5404319552844595 / 18014398509481984)) =
     (None, Some \<lparr>numRows = 4, numCols = 1,
        values' = [Fin 0, Fin (5404319552844595 / 18014398509481984),
                   Fin (5404319552844595 / 9007199254740992),
                   Fin (2026619832316723 / 2251799813685248),
                   Fin (5404319552844595 / 4503599627370496)]\<rparr>)"
proof -
  let ?inc = "Fin (5404319552844595 / 18014398509481984)"
  have acc: "arguments_accepted (Fin 0) (Fin 1) ?inc"
    by (simp add: arguments_accepted_def fne_def fgt_def)
  have n: "expectedNumRows (Fin 0) (Fin 1) ?inc = Some 5"
    by (simp add: seq_eval)
  have vs: "map (accumulated (Fin 0) ?inc) [0..<5] =
      [Fin 0, Fin (5404319552844595 / 18014398509481984),
                   Fin (5404319552844595 / 9007199254740992),
                   Fin (2026619832316723 / 2251799813685248),
                   Fin (5404319552844595 / 4503599627370496)]"
    by (simp add: fl_eval eval_nat_numeral)
  have over: "fgt (fsub (Fin (5404319552844595 / 4503599627370496)) (Fin 1)) eps"
    by (simp add: fgt_def fsub_def eps_value fl_eval)
  from over show ?thesis
    by (simp add: Seq_apply_null [OF acc n] vs boundary_correction_def getValues_def
        shrinkNumRows_def fgt_def)
qed

text \<open>
  Accumulation is not multiplication: ten additions of the double nearest to 0.1 give
  the double just below 1, while ten times that double rounds to 1.
\<close>

lemma accumulation_is_not_multiplication:
  "fl (1 / 10) = Fin (3602879701896397 / 36028797018963968)"
  "accumulated (Fin 0) (Fin (3602879701896397 / 36028797018963968)) 10 =
     Fin (9007199254740991 / 9007199254740992)"
  "fl (10 * (3602879701896397 / 36028797018963968)) = Fin 1"
  by (simp_all add: fl_eval eval_nat_numeral)

end
